theory Spec2Isabelle
  imports Main
begin

section \<open>The in-memory build service\<close>

subsection \<open>Data model\<close>

text \<open>
  The Go struct \<^verbatim>\<open>Build\<close> has two string fields. A Go string is a sequence of
  bytes, which is what \<^typ>\<open>string\<close> is; the empty string is \<^term>\<open>[] :: string\<close>.
\<close>

record Build =
  ID :: string
  Name :: string

text \<open>The three package-level error values.\<close>

datatype error = ErrInconsistentIDs | ErrAlreadyExists | ErrNotFound

text \<open>
  \<^verbatim>\<open>inmemService\<close> holds a lock and the map \<^verbatim>\<open>m\<close>. The lock has no value of its
  own in a sequential run, so the record keeps the map only. A Go map from strings to
  struct values is a partial function from keys to values.
\<close>

record inmemService =
  m :: "string \<rightharpoonup> Build"

definition NewInmemService :: inmemService where
  "NewInmemService = \<lparr>m = Map.empty\<rparr>"

subsection \<open>Operations\<close>

text \<open>
  Every method mutates the receiver and returns a Go \<^verbatim>\<open>error\<close>. The model takes the
  service and returns the service after the call with the error, \<^term>\<open>None\<close> for
  \<^verbatim>\<open>nil\<close>. The context argument is used by no method and is left out. The
  argument \<^verbatim>\<open>id\<close> is written \<open>id'\<close>.
\<close>

definition PostBuild :: "inmemService \<Rightarrow> Build \<Rightarrow> inmemService \<times> error option" where
  "PostBuild s b =
     (if m s (ID b) \<noteq> None then (s, Some ErrAlreadyExists)
      else (s\<lparr>m := (m s)(ID b \<mapsto> b)\<rparr>, None))"

text \<open>
  \<^verbatim>\<open>GetBuild\<close> takes the read lock only and returns the zero-valued
  \<^verbatim>\<open>Build{}\<close> beside \<^verbatim>\<open>ErrNotFound\<close>.
\<close>

definition GetBuild :: "inmemService \<Rightarrow> string \<Rightarrow> Build \<times> error option" where
  "GetBuild s id' =
     (case m s id' of
        None \<Rightarrow> (\<lparr>ID = [], Name = []\<rparr>, Some ErrNotFound)
      | Some b \<Rightarrow> (b, None))"

definition PutBuild :: "inmemService \<Rightarrow> string \<Rightarrow> Build \<Rightarrow> inmemService \<times> error option" where
  "PutBuild s id' b =
     (if id' \<noteq> ID b then (s, Some ErrInconsistentIDs)
      else (s\<lparr>m := (m s)(id' \<mapsto> b)\<rparr>, None))"

definition PatchBuild :: "inmemService \<Rightarrow> string \<Rightarrow> Build \<Rightarrow> inmemService \<times> error option" where
  "PatchBuild s id' b =
     (if ID b \<noteq> [] \<and> id' \<noteq> ID b then (s, Some ErrInconsistentIDs)
      else
        (case m s id' of
           None \<Rightarrow> (s, Some ErrNotFound)
         | Some existing \<Rightarrow>
             (let existing' = (if Name b \<noteq> [] then existing\<lparr>Name := Name b\<rparr> else existing)
              in (s\<lparr>m := (m s)(id' \<mapsto> existing')\<rparr>, None))))"

definition DeleteBuild :: "inmemService \<Rightarrow> string \<Rightarrow> inmemService \<times> error option" where
  "DeleteBuild s id' =
     (if m s id' = None then (s, Some ErrNotFound)
      else (s\<lparr>m := (m s)(id' := None)\<rparr>, None))"

subsection \<open>Calls through the \<^verbatim>\<open>Service\<close> interface\<close>

text \<open>
  The interface \<^verbatim>\<open>Service\<close> has five methods. A call is one of them with its
  arguments; \<open>invoke\<close> runs it on a service and gives the service afterwards and the
  error. \<^verbatim>\<open>GetBuild\<close> writes nothing, so its service afterwards is the one before.
\<close>

datatype call =
    Post Build
  | Get string
  | Put string Build
  | Patch string Build
  | Delete string

fun invoke :: "inmemService \<Rightarrow> call \<Rightarrow> inmemService \<times> error option" where
  "invoke s (Post b) = PostBuild s b"
| "invoke s (Get id') = (s, snd (GetBuild s id'))"
| "invoke s (Put id' b) = PutBuild s id' b"
| "invoke s (Patch id' b) = PatchBuild s id' b"
| "invoke s (Delete id') = DeleteBuild s id'"

text \<open>The states a service can be in: the new one, and any state one call later.\<close>

inductive reachable :: "inmemService \<Rightarrow> bool" where
  reachable_new: "reachable NewInmemService"
| reachable_call: "reachable s \<Longrightarrow> reachable (fst (invoke s c))"

text \<open>
  The store invariant has two parts: a record stored under a key carries that key as
  its \<open>ID\<close>, and records under different keys have different \<open>ID\<close>s.
\<close>

definition keys_match :: "inmemService \<Rightarrow> bool" where
  "keys_match s \<longleftrightarrow> (\<forall>k b. m s k = Some b \<longrightarrow> ID b = k)"

definition unique_ids :: "inmemService \<Rightarrow> bool" where
  "unique_ids s \<longleftrightarrow>
     (\<forall>k1 k2 b1 b2. m s k1 = Some b1 \<and> m s k2 = Some b2 \<and> k1 \<noteq> k2 \<longrightarrow> ID b1 \<noteq> ID b2)"

definition store_inv :: "inmemService \<Rightarrow> bool" where
  "store_inv s \<longleftrightarrow> keys_match s \<and> unique_ids s"

section \<open>Properties\<close>

subsection \<open>Create, then read\<close>

text \<open>
  C2. For every build \<open>b\<close> whose \<open>ID\<close> is not in the store, \<open>PostBuild\<close> returns no
  error, and \<open>GetBuild\<close> on the resulting store at \<open>ID b\<close> returns \<open>b\<close> with no
  error.
\<close>

theorem create_then_read:
  assumes "m s (ID b) = None"
  shows "snd (PostBuild s b) = None \<and> GetBuild (fst (PostBuild s b)) (ID b) = (b, None)"
  using assms by (simp add: PostBuild_def GetBuild_def)

theorem create_then_read_witness:
  "m NewInmemService (ID \<lparr>ID = ''x'', Name = ''old''\<rparr>) = None
   \<and> snd (PostBuild NewInmemService \<lparr>ID = ''x'', Name = ''old''\<rparr>) = None
   \<and> GetBuild (fst (PostBuild NewInmemService \<lparr>ID = ''x'', Name = ''old''\<rparr>)) ''x''
       = (\<lparr>ID = ''x'', Name = ''old''\<rparr>, None)"
proof -
  have fresh: "m NewInmemService (ID \<lparr>ID = ''x'', Name = ''old''\<rparr>) = None"
    by (simp add: NewInmemService_def)
  from create_then_read [OF fresh] fresh show ?thesis by simp
qed

subsection \<open>Helper facts on the invariant\<close>

lemma keys_match_unique_ids: "keys_match s \<Longrightarrow> unique_ids s"
  unfolding keys_match_def unique_ids_def by metis

lemma keys_match_new: "keys_match NewInmemService"
  by (simp add: keys_match_def NewInmemService_def)

lemma keys_match_PostBuild: "keys_match s \<Longrightarrow> keys_match (fst (PostBuild s b))"
  by (auto simp: keys_match_def PostBuild_def split: if_splits)

lemma keys_match_PutBuild: "keys_match s \<Longrightarrow> keys_match (fst (PutBuild s id' b))"
  by (auto simp: keys_match_def PutBuild_def split: if_splits)

lemma keys_match_PatchBuild: "keys_match s \<Longrightarrow> keys_match (fst (PatchBuild s id' b))"
  by (auto simp: keys_match_def PatchBuild_def Let_def split: if_splits option.splits)

lemma keys_match_DeleteBuild: "keys_match s \<Longrightarrow> keys_match (fst (DeleteBuild s id'))"
  by (auto simp: keys_match_def DeleteBuild_def split: if_splits)

lemma keys_match_invoke: "keys_match s \<Longrightarrow> keys_match (fst (invoke s c))"
  by (cases c)
    (simp_all add: keys_match_PostBuild keys_match_PutBuild keys_match_PatchBuild
      keys_match_DeleteBuild)

lemma reachable_keys_match: "reachable s \<Longrightarrow> keys_match s"
  by (induction rule: reachable.induct) (simp_all add: keys_match_new keys_match_invoke)

subsection \<open>The store invariant\<close>

text \<open>
  C1. In every state reachable from the new service by \<open>Post\<close>, \<open>Get\<close>, \<open>Put\<close>,
  \<open>Patch\<close> and \<open>Delete\<close> calls, no two stored records share an \<open>ID\<close> and each record
  stored under a key \<open>k\<close> has \<open>ID\<close> equal to \<open>k\<close>; and every call keeps the invariant:
  from any state where it holds, the state after the call satisfies it again.
\<close>

theorem store_invariant:
  "(reachable s \<longrightarrow> store_inv s) \<and> (store_inv s \<longrightarrow> store_inv (fst (invoke s c)))"
  by (simp add: store_inv_def reachable_keys_match keys_match_invoke keys_match_unique_ids)

theorem store_invariant_witness:
  "reachable (fst (invoke NewInmemService (Post \<lparr>ID = ''x'', Name = ''old''\<rparr>)))
   \<and> store_inv (fst (invoke NewInmemService (Post \<lparr>ID = ''x'', Name = ''old''\<rparr>)))
   \<and> store_inv (fst (invoke (fst (invoke NewInmemService (Post \<lparr>ID = ''x'', Name = ''old''\<rparr>)))
        (Patch ''x'' \<lparr>ID = [], Name = ''new''\<rparr>)))"
proof -
  have r: "reachable (fst (invoke NewInmemService (Post \<lparr>ID = ''x'', Name = ''old''\<rparr>)))"
    by (rule reachable_call [OF reachable_new])
  from r store_invariant
    [of "fst (invoke NewInmemService (Post \<lparr>ID = ''x'', Name = ''old''\<rparr>))"
        "Patch ''x'' \<lparr>ID = [], Name = ''new''\<rparr>"]
  show ?thesis by blast
qed

subsection \<open>Create on a key that is taken\<close>

text \<open>
  C3. If a record is stored under \<open>ID b\<close>, \<open>PostBuild s b\<close> returns
  \<open>ErrAlreadyExists\<close>, and the record under \<open>ID b\<close> afterwards is the one that was
  there before (the whole service is as before).
\<close>

theorem create_existing:
  assumes "m s (ID b) = Some r"
  shows "PostBuild s b = (s, Some ErrAlreadyExists) \<and> m (fst (PostBuild s b)) (ID b) = Some r"
  using assms by (simp add: PostBuild_def)

theorem create_existing_witness:
  "m \<lparr>m = [''x'' \<mapsto> \<lparr>ID = ''x'', Name = ''first''\<rparr>]\<rparr> (ID \<lparr>ID = ''x'', Name = ''second''\<rparr>)
     = Some \<lparr>ID = ''x'', Name = ''first''\<rparr>
   \<and> PostBuild \<lparr>m = [''x'' \<mapsto> \<lparr>ID = ''x'', Name = ''first''\<rparr>]\<rparr> \<lparr>ID = ''x'', Name = ''second''\<rparr>
     = (\<lparr>m = [''x'' \<mapsto> \<lparr>ID = ''x'', Name = ''first''\<rparr>]\<rparr>, Some ErrAlreadyExists)
   \<and> m (fst (PostBuild \<lparr>m = [''x'' \<mapsto> \<lparr>ID = ''x'', Name = ''first''\<rparr>]\<rparr>
            \<lparr>ID = ''x'', Name = ''second''\<rparr>)) ''x''
     = Some \<lparr>ID = ''x'', Name = ''first''\<rparr>"
proof -
  have taken:
    "m \<lparr>m = [''x'' \<mapsto> \<lparr>ID = ''x'', Name = ''first''\<rparr>]\<rparr> (ID \<lparr>ID = ''x'', Name = ''second''\<rparr>)
       = Some \<lparr>ID = ''x'', Name = ''first''\<rparr>"
    by simp
  from create_existing [OF taken] taken show ?thesis by simp
qed

subsection \<open>Replace\<close>

text \<open>
  C4. \<open>PutBuild s id' b\<close> returns \<open>ErrInconsistentIDs\<close> exactly when \<open>ID b\<close> differs
  from \<open>id'\<close>. When they are equal it returns no error, whatever was or was not stored
  under \<open>id'\<close>, and \<open>GetBuild\<close> on the resulting store at \<open>id'\<close> returns \<open>b\<close>.
\<close>

theorem replace_spec:
  "(snd (PutBuild s id' b) = Some ErrInconsistentIDs \<longleftrightarrow> ID b \<noteq> id')
   \<and> (ID b = id' \<longrightarrow>
        snd (PutBuild s id' b) = None \<and> GetBuild (fst (PutBuild s id' b)) id' = (b, None))"
  by (auto simp: PutBuild_def GetBuild_def)

theorem replace_spec_witness:
  "ID \<lparr>ID = ''x'', Name = ''new''\<rparr> = ''x''
   \<and> snd (PutBuild NewInmemService ''x'' \<lparr>ID = ''x'', Name = ''new''\<rparr>) = None
   \<and> GetBuild (fst (PutBuild NewInmemService ''x'' \<lparr>ID = ''x'', Name = ''new''\<rparr>)) ''x''
       = (\<lparr>ID = ''x'', Name = ''new''\<rparr>, None)
   \<and> snd (PutBuild \<lparr>m = [''x'' \<mapsto> \<lparr>ID = ''x'', Name = ''old''\<rparr>]\<rparr> ''x'' \<lparr>ID = ''x'', Name = ''new''\<rparr>)
       = None
   \<and> GetBuild (fst (PutBuild \<lparr>m = [''x'' \<mapsto> \<lparr>ID = ''x'', Name = ''old''\<rparr>]\<rparr> ''x''
                      \<lparr>ID = ''x'', Name = ''new''\<rparr>)) ''x''
       = (\<lparr>ID = ''x'', Name = ''new''\<rparr>, None)
   \<and> snd (PutBuild NewInmemService ''x'' \<lparr>ID = ''y'', Name = ''new''\<rparr>) = Some ErrInconsistentIDs"
proof -
  have same: "ID \<lparr>ID = ''x'', Name = ''new''\<rparr> = ''x''" by simp
  have diff: "ID \<lparr>ID = ''y'', Name = ''new''\<rparr> \<noteq> ''x''" by simp
  from same diff
    replace_spec [of NewInmemService "''x''" "\<lparr>ID = ''x'', Name = ''new''\<rparr>"]
    replace_spec [of "\<lparr>m = [''x'' \<mapsto> \<lparr>ID = ''x'', Name = ''old''\<rparr>]\<rparr>" "''x''"
                     "\<lparr>ID = ''x'', Name = ''new''\<rparr>"]
    replace_spec [of NewInmemService "''x''" "\<lparr>ID = ''y'', Name = ''new''\<rparr>"]
  show ?thesis by blast
qed

subsection \<open>Partial update: errors\<close>

text \<open>
  C5, as stated, asks for \<open>ErrNotFound\<close> whenever no record is stored under \<open>id'\<close>.
  The method compares the IDs first: on the new service, where nothing is stored under
  \<open>''x''\<close>, a patch for \<open>''x''\<close> whose build has \<open>ID\<close> \<open>''y''\<close> returns
  \<open>ErrInconsistentIDs\<close>, not \<open>ErrNotFound\<close>.
\<close>

theorem patch_not_found_counterexample:
  "m NewInmemService ''x'' = None
   \<and> snd (PatchBuild NewInmemService ''x'' \<lparr>ID = ''y'', Name = []\<rparr>) = Some ErrInconsistentIDs
   \<and> snd (PatchBuild NewInmemService ''x'' \<lparr>ID = ''y'', Name = []\<rparr>) \<noteq> Some ErrNotFound"
  by (simp add: PatchBuild_def NewInmemService_def)

text \<open>
  C5, amended. \<open>PatchBuild s id' b\<close> returns \<open>ErrInconsistentIDs\<close> if \<open>ID b\<close> is
  non-empty and differs from \<open>id'\<close>; if \<open>ID b\<close> is empty or equal to \<open>id'\<close> and no
  record is stored under \<open>id'\<close>, it returns \<open>ErrNotFound\<close>; in both cases the service is
  left as it was. It never creates a record: a key with no record before the call has
  none after it, whether the call fails or not.
\<close>

theorem patch_errors:
  "(ID b \<noteq> [] \<and> ID b \<noteq> id' \<longrightarrow> PatchBuild s id' b = (s, Some ErrInconsistentIDs))
   \<and> ((ID b = [] \<or> ID b = id') \<and> m s id' = None \<longrightarrow> PatchBuild s id' b = (s, Some ErrNotFound))
   \<and> (m s k = None \<longrightarrow> m (fst (PatchBuild s id' b)) k = None)"
  by (auto simp: PatchBuild_def Let_def split: option.splits)

theorem patch_errors_witness:
  "PatchBuild \<lparr>m = [''x'' \<mapsto> \<lparr>ID = ''x'', Name = ''old''\<rparr>]\<rparr> ''x'' \<lparr>ID = ''y'', Name = ''new''\<rparr>
     = (\<lparr>m = [''x'' \<mapsto> \<lparr>ID = ''x'', Name = ''old''\<rparr>]\<rparr>, Some ErrInconsistentIDs)
   \<and> PatchBuild NewInmemService ''x'' \<lparr>ID = [], Name = ''new''\<rparr>
     = (NewInmemService, Some ErrNotFound)
   \<and> PatchBuild NewInmemService ''x'' \<lparr>ID = ''x'', Name = ''new''\<rparr>
     = (NewInmemService, Some ErrNotFound)
   \<and> m (fst (PatchBuild NewInmemService ''x'' \<lparr>ID = ''x'', Name = ''new''\<rparr>)) ''x'' = None
   \<and> m (fst (PatchBuild \<lparr>m = [''x'' \<mapsto> \<lparr>ID = ''x'', Name = ''old''\<rparr>]\<rparr> ''x''
                \<lparr>ID = ''x'', Name = ''new''\<rparr>)) ''z'' = None"
proof -
  have absent: "m NewInmemService ''x'' = None"
    by (simp add: NewInmemService_def)
  have other: "m \<lparr>m = [''x'' \<mapsto> \<lparr>ID = ''x'', Name = ''old''\<rparr>]\<rparr> ''z'' = None"
    by simp
  from absent other
    patch_errors [of "\<lparr>ID = ''y'', Name = ''new''\<rparr>" "''x''"
                     "\<lparr>m = [''x'' \<mapsto> \<lparr>ID = ''x'', Name = ''old''\<rparr>]\<rparr>" "''x''"]
    patch_errors [of "\<lparr>ID = [], Name = ''new''\<rparr>" "''x''" NewInmemService "''x''"]
    patch_errors [of "\<lparr>ID = ''x'', Name = ''new''\<rparr>" "''x''" NewInmemService "''x''"]
    patch_errors [of "\<lparr>ID = ''x'', Name = ''new''\<rparr>" "''x''"
                     "\<lparr>m = [''x'' \<mapsto> \<lparr>ID = ''x'', Name = ''old''\<rparr>]\<rparr>" "''z''"]
  show ?thesis by simp
qed

subsection \<open>Partial update: effect\<close>

text \<open>
  C6. Let \<open>r\<close> be the record stored under \<open>id'\<close> and let \<open>PatchBuild s id' b\<close> return
  no error. If \<open>Name b\<close> is non-empty, the record under \<open>id'\<close> afterwards is \<open>r\<close> with
  its \<open>Name\<close> set to \<open>Name b\<close>; if \<open>Name b\<close> is empty, the service (so the stored record)
  is left as it was; in both cases the \<open>ID\<close> of the record under \<open>id'\<close> is the \<open>ID\<close>
  of \<open>r\<close>.
\<close>

theorem patch_effect:
  assumes "m s id' = Some r" and "snd (PatchBuild s id' b) = None"
  shows "(Name b \<noteq> [] \<longrightarrow> m (fst (PatchBuild s id' b)) id' = Some (r\<lparr>Name := Name b\<rparr>))
         \<and> (Name b = [] \<longrightarrow> fst (PatchBuild s id' b) = s)
         \<and> map_option ID (m (fst (PatchBuild s id' b)) id') = Some (ID r)"
  using assms by (auto simp: PatchBuild_def Let_def fun_upd_idem split: if_splits)

theorem patch_effect_witness:
  "m \<lparr>m = [''x'' \<mapsto> \<lparr>ID = ''x'', Name = ''old''\<rparr>]\<rparr> ''x'' = Some \<lparr>ID = ''x'', Name = ''old''\<rparr>
   \<and> snd (PatchBuild \<lparr>m = [''x'' \<mapsto> \<lparr>ID = ''x'', Name = ''old''\<rparr>]\<rparr> ''x''
            \<lparr>ID = ''x'', Name = ''new''\<rparr>) = None
   \<and> m (fst (PatchBuild \<lparr>m = [''x'' \<mapsto> \<lparr>ID = ''x'', Name = ''old''\<rparr>]\<rparr> ''x''
               \<lparr>ID = ''x'', Name = ''new''\<rparr>)) ''x''
       = Some \<lparr>ID = ''x'', Name = ''new''\<rparr>
   \<and> snd (PatchBuild \<lparr>m = [''x'' \<mapsto> \<lparr>ID = ''x'', Name = ''old''\<rparr>]\<rparr> ''x''
            \<lparr>ID = [], Name = []\<rparr>) = None
   \<and> fst (PatchBuild \<lparr>m = [''x'' \<mapsto> \<lparr>ID = ''x'', Name = ''old''\<rparr>]\<rparr> ''x'' \<lparr>ID = [], Name = []\<rparr>)
       = \<lparr>m = [''x'' \<mapsto> \<lparr>ID = ''x'', Name = ''old''\<rparr>]\<rparr>"
proof -
  have stored:
    "m \<lparr>m = [''x'' \<mapsto> \<lparr>ID = ''x'', Name = ''old''\<rparr>]\<rparr> ''x'' = Some \<lparr>ID = ''x'', Name = ''old''\<rparr>"
    by simp
  have ok1:
    "snd (PatchBuild \<lparr>m = [''x'' \<mapsto> \<lparr>ID = ''x'', Name = ''old''\<rparr>]\<rparr> ''x''
            \<lparr>ID = ''x'', Name = ''new''\<rparr>) = None"
    by (simp add: PatchBuild_def)
  have ok2:
    "snd (PatchBuild \<lparr>m = [''x'' \<mapsto> \<lparr>ID = ''x'', Name = ''old''\<rparr>]\<rparr> ''x''
            \<lparr>ID = [], Name = []\<rparr>) = None"
    by (simp add: PatchBuild_def)
  from stored ok1 ok2 patch_effect [OF stored ok1] patch_effect [OF stored ok2]
  show ?thesis by simp
qed

subsection \<open>Delete\<close>

text \<open>
  C7. If a record is stored under \<open>id'\<close>, \<open>DeleteBuild s id'\<close> returns no error and
  \<open>GetBuild\<close> on the resulting store at \<open>id'\<close> returns \<open>ErrNotFound\<close>. If none is
  stored, \<open>DeleteBuild s id'\<close> returns \<open>ErrNotFound\<close> and the service is as before.
\<close>

theorem delete_spec:
  "(m s id' \<noteq> None \<longrightarrow>
      snd (DeleteBuild s id') = None
      \<and> snd (GetBuild (fst (DeleteBuild s id')) id') = Some ErrNotFound)
   \<and> (m s id' = None \<longrightarrow> DeleteBuild s id' = (s, Some ErrNotFound))"
  by (simp add: DeleteBuild_def GetBuild_def)

theorem delete_spec_witness:
  "m \<lparr>m = [''x'' \<mapsto> \<lparr>ID = ''x'', Name = ''old''\<rparr>]\<rparr> ''x'' \<noteq> None
   \<and> snd (DeleteBuild \<lparr>m = [''x'' \<mapsto> \<lparr>ID = ''x'', Name = ''old''\<rparr>]\<rparr> ''x'') = None
   \<and> snd (GetBuild (fst (DeleteBuild \<lparr>m = [''x'' \<mapsto> \<lparr>ID = ''x'', Name = ''old''\<rparr>]\<rparr> ''x'')) ''x'')
       = Some ErrNotFound
   \<and> m \<lparr>m = [''x'' \<mapsto> \<lparr>ID = ''x'', Name = ''old''\<rparr>]\<rparr> ''y'' = None
   \<and> DeleteBuild \<lparr>m = [''x'' \<mapsto> \<lparr>ID = ''x'', Name = ''old''\<rparr>]\<rparr> ''y''
       = (\<lparr>m = [''x'' \<mapsto> \<lparr>ID = ''x'', Name = ''old''\<rparr>]\<rparr>, Some ErrNotFound)"
proof -
  have present: "m \<lparr>m = [''x'' \<mapsto> \<lparr>ID = ''x'', Name = ''old''\<rparr>]\<rparr> ''x'' \<noteq> None"
    by simp
  have absent: "m \<lparr>m = [''x'' \<mapsto> \<lparr>ID = ''x'', Name = ''old''\<rparr>]\<rparr> ''y'' = None"
    by simp
  from present absent
    delete_spec [of "\<lparr>m = [''x'' \<mapsto> \<lparr>ID = ''x'', Name = ''old''\<rparr>]\<rparr>" "''x''"]
    delete_spec [of "\<lparr>m = [''x'' \<mapsto> \<lparr>ID = ''x'', Name = ''old''\<rparr>]\<rparr>" "''y''"]
  show ?thesis by blast
qed

subsection \<open>A failing call writes nothing\<close>

text \<open>
  C8. For each of the five calls and every service state: if the call returns an error
  (\<open>ErrAlreadyExists\<close>, \<open>ErrNotFound\<close> or \<open>ErrInconsistentIDs\<close>, the only values of
  \<open>error\<close>), the map after the call is the map before it.
\<close>

theorem error_keeps_map:
  assumes "snd (invoke s c) = Some e"
  shows "m (fst (invoke s c)) = m s"
  using assms
  by (cases c)
    (auto simp: PostBuild_def PutBuild_def PatchBuild_def DeleteBuild_def Let_def
      split: if_splits option.splits)

theorem error_keeps_map_witness:
  "snd (invoke \<lparr>m = [''x'' \<mapsto> \<lparr>ID = ''x'', Name = ''old''\<rparr>]\<rparr> (Post \<lparr>ID = ''x'', Name = ''new''\<rparr>))
     = Some ErrAlreadyExists
   \<and> m (fst (invoke \<lparr>m = [''x'' \<mapsto> \<lparr>ID = ''x'', Name = ''old''\<rparr>]\<rparr>
               (Post \<lparr>ID = ''x'', Name = ''new''\<rparr>)))
     = [''x'' \<mapsto> \<lparr>ID = ''x'', Name = ''old''\<rparr>]
   \<and> snd (invoke \<lparr>m = [''x'' \<mapsto> \<lparr>ID = ''x'', Name = ''old''\<rparr>]\<rparr>
            (Put ''x'' \<lparr>ID = ''y'', Name = ''new''\<rparr>))
     = Some ErrInconsistentIDs
   \<and> m (fst (invoke \<lparr>m = [''x'' \<mapsto> \<lparr>ID = ''x'', Name = ''old''\<rparr>]\<rparr>
               (Put ''x'' \<lparr>ID = ''y'', Name = ''new''\<rparr>)))
     = [''x'' \<mapsto> \<lparr>ID = ''x'', Name = ''old''\<rparr>]
   \<and> snd (invoke \<lparr>m = [''x'' \<mapsto> \<lparr>ID = ''x'', Name = ''old''\<rparr>]\<rparr> (Delete ''y'')) = Some ErrNotFound
   \<and> m (fst (invoke \<lparr>m = [''x'' \<mapsto> \<lparr>ID = ''x'', Name = ''old''\<rparr>]\<rparr> (Delete ''y'')))
     = [''x'' \<mapsto> \<lparr>ID = ''x'', Name = ''old''\<rparr>]
   \<and> snd (invoke \<lparr>m = [''x'' \<mapsto> \<lparr>ID = ''x'', Name = ''old''\<rparr>]\<rparr> (Get ''y'')) = Some ErrNotFound
   \<and> m (fst (invoke \<lparr>m = [''x'' \<mapsto> \<lparr>ID = ''x'', Name = ''old''\<rparr>]\<rparr> (Get ''y'')))
     = [''x'' \<mapsto> \<lparr>ID = ''x'', Name = ''old''\<rparr>]
   \<and> snd (invoke \<lparr>m = [''x'' \<mapsto> \<lparr>ID = ''x'', Name = ''old''\<rparr>]\<rparr>
            (Patch ''y'' \<lparr>ID = [], Name = ''new''\<rparr>))
     = Some ErrNotFound
   \<and> m (fst (invoke \<lparr>m = [''x'' \<mapsto> \<lparr>ID = ''x'', Name = ''old''\<rparr>]\<rparr>
               (Patch ''y'' \<lparr>ID = [], Name = ''new''\<rparr>)))
     = [''x'' \<mapsto> \<lparr>ID = ''x'', Name = ''old''\<rparr>]"
proof -
  have e1:
    "snd (invoke \<lparr>m = [''x'' \<mapsto> \<lparr>ID = ''x'', Name = ''old''\<rparr>]\<rparr> (Post \<lparr>ID = ''x'', Name = ''new''\<rparr>))
       = Some ErrAlreadyExists"
    by (simp add: PostBuild_def)
  have e2:
    "snd (invoke \<lparr>m = [''x'' \<mapsto> \<lparr>ID = ''x'', Name = ''old''\<rparr>]\<rparr>
            (Put ''x'' \<lparr>ID = ''y'', Name = ''new''\<rparr>))
       = Some ErrInconsistentIDs"
    by (simp add: PutBuild_def)
  have e3:
    "snd (invoke \<lparr>m = [''x'' \<mapsto> \<lparr>ID = ''x'', Name = ''old''\<rparr>]\<rparr> (Delete ''y'')) = Some ErrNotFound"
    by (simp add: DeleteBuild_def)
  have e4:
    "snd (invoke \<lparr>m = [''x'' \<mapsto> \<lparr>ID = ''x'', Name = ''old''\<rparr>]\<rparr> (Get ''y'')) = Some ErrNotFound"
    by (simp add: GetBuild_def)
  have e5:
    "snd (invoke \<lparr>m = [''x'' \<mapsto> \<lparr>ID = ''x'', Name = ''old''\<rparr>]\<rparr>
            (Patch ''y'' \<lparr>ID = [], Name = ''new''\<rparr>))
       = Some ErrNotFound"
    by (simp add: PatchBuild_def)
  from e1 e2 e3 e4 e5
    error_keeps_map [OF e1] error_keeps_map [OF e2] error_keeps_map [OF e3]
    error_keeps_map [OF e4] error_keeps_map [OF e5]
  show ?thesis by simp
qed

subsection \<open>Create with the empty ID\<close>

text \<open>
  C10. \<open>PostBuild\<close> does not check that the \<open>ID\<close> is non-empty: if nothing is stored
  under the empty key, \<open>PostBuild\<close> of a build whose \<open>ID\<close> is empty returns no error,
  stores the build under the empty key, and \<open>GetBuild\<close> at the empty key returns it.
\<close>

theorem create_empty_id:
  assumes "m s [] = None" and "ID b = []"
  shows "snd (PostBuild s b) = None
         \<and> m (fst (PostBuild s b)) [] = Some b
         \<and> GetBuild (fst (PostBuild s b)) [] = (b, None)"
  using assms by (simp add: PostBuild_def GetBuild_def)

theorem create_empty_id_witness:
  "m NewInmemService [] = None
   \<and> ID \<lparr>ID = [], Name = ''anon''\<rparr> = []
   \<and> snd (PostBuild NewInmemService \<lparr>ID = [], Name = ''anon''\<rparr>) = None
   \<and> m (fst (PostBuild NewInmemService \<lparr>ID = [], Name = ''anon''\<rparr>)) []
       = Some \<lparr>ID = [], Name = ''anon''\<rparr>
   \<and> GetBuild (fst (PostBuild NewInmemService \<lparr>ID = [], Name = ''anon''\<rparr>)) []
       = (\<lparr>ID = [], Name = ''anon''\<rparr>, None)"
proof -
  have free: "m NewInmemService [] = None"
    by (simp add: NewInmemService_def)
  have empty: "ID \<lparr>ID = [], Name = ''anon''\<rparr> = []"
    by simp
  from free empty create_empty_id [OF free empty] show ?thesis by simp
qed

end
